theory Spec2Isabelle
  imports Complex_Main
begin

section \<open>JSON documents\<close>

text \<open>
  A document is a Python \<open>dict\<close> obtained from JSON. Python dictionaries keep the
  insertion order of their keys, so a dictionary is an association list; a well-formed
  one has distinct keys. Floating point numbers are idealised as reals.
\<close>

datatype json =
    JNull
  | JBool bool
  | JInt int
  | JFloat real
  | JStr string
  | JList "json list"
  | JObj "(string \<times> json) list"

type_synonym doc = "(string \<times> json) list"

text \<open>
  The exceptions that the modelled code raises, named by their Python class and, where one
  class is raised at several places, by the place:
  \<^item> \<open>ValueError_collection\<close>: \<open>insert_document\<close>, collection not valid;
  \<^item> \<open>ValueError_invalid\<close>: \<open>validate_document\<close>, document not valid;
  \<^item> \<open>ValueError_mismatch\<close>: \<open>replace_document\<close>, the identifier of the
    document is not the identifier given;
  \<^item> \<open>ValueError_never_null\<close> and \<open>ValueError_wrong_type\<close>: the link scan;
  \<^item> \<open>ValueError_schema\<close>: \<open>validate_schema\<close>, schema without \<open>$id\<close>;
  \<^item> \<open>NameError\<close>: \<open>insert_document\<close>, the identifier already exists;
  \<^item> \<open>LookupError_collection\<close> and \<open>LookupError_not_found\<close>: unknown
    collection, and no document found;
  \<^item> \<open>AssertionError_multiple\<close>: \<open>get_document\<close>, several documents found;
  \<^item> \<open>AssertionError_equal\<close>: \<open>replace_document\<close>, old and new content
    are equal;
  \<^item> \<open>SchemaError\<close>: raised by \<open>jsonschema.validate\<close> and not caught.
\<close>

datatype error =
    KeyError string
  | TypeError
  | SchemaError
  | ValueError_collection
  | ValueError_invalid
  | ValueError_mismatch
  | ValueError_never_null
  | ValueError_wrong_type
  | ValueError_schema
  | NameError
  | LookupError_collection
  | LookupError_not_found
  | AssertionError_multiple
  | AssertionError_equal

text \<open>\<open>except LookupError\<close> also catches \<open>KeyError\<close>, a subclass of it.\<close>

fun is_LookupError :: "error \<Rightarrow> bool" where
  "is_LookupError LookupError_collection = True"
| "is_LookupError LookupError_not_found = True"
| "is_LookupError (KeyError k) = True"
| "is_LookupError e = False"

definition dict_get :: "doc \<Rightarrow> string \<Rightarrow> json option" where
  "dict_get d k = map_of d k"

text \<open>\<open>d[k] = v\<close>: an existing key keeps its place, a new key goes last.\<close>

fun dict_set :: "doc \<Rightarrow> string \<Rightarrow> json \<Rightarrow> doc" where
  "dict_set [] k v = [(k, v)]"
| "dict_set ((k', v') # d) k v = (if k' = k then (k, v) # d else (k', v') # dict_set d k v)"

text \<open>\<open>d.update(e)\<close>.\<close>

fun dict_update :: "doc \<Rightarrow> doc \<Rightarrow> doc" where
  "dict_update d [] = d"
| "dict_update d ((k, v) # e) = dict_update (dict_set d k v) e"

text \<open>\<open>d.pop(k)\<close> for a key that is present, on a dictionary with distinct keys.\<close>

definition dict_pop :: "doc \<Rightarrow> string \<Rightarrow> doc" where
  "dict_pop d k = filter (\<lambda>(k', v). k' \<noteq> k) d"

definition startswith :: "string \<Rightarrow> string \<Rightarrow> bool" where
  "startswith s p = (take (length p) s = p)"

text \<open>
  Python's \<open>==\<close> on JSON values: \<open>True == 1 == 1.0\<close>, lists are compared element by
  element, dictionaries by their keys and values whatever the order of the keys.
\<close>

fun num_of :: "json \<Rightarrow> real option" where
  "num_of (JBool b) = Some (if b then 1 else 0)"
| "num_of (JInt i) = Some (of_int i)"
| "num_of (JFloat r) = Some r"
| "num_of v = None"

function py_eq :: "json \<Rightarrow> json \<Rightarrow> bool"
  and py_eq_list :: "json list \<Rightarrow> json list \<Rightarrow> bool"
  and py_eq_items :: "doc \<Rightarrow> doc \<Rightarrow> bool"
where
  "py_eq a b =
     (case (a, b) of
        (JNull, JNull) \<Rightarrow> True
      | (JStr s, JStr t) \<Rightarrow> s = t
      | (JList xs, JList ys) \<Rightarrow> py_eq_list xs ys
      | (JObj d, JObj e) \<Rightarrow> length d = length e \<and> py_eq_items d e
      | _ \<Rightarrow> (case (num_of a, num_of b) of (Some x, Some y) \<Rightarrow> x = y | _ \<Rightarrow> False))"
| "py_eq_list [] ys = (ys = [])"
| "py_eq_list (x # xs) ys = (case ys of [] \<Rightarrow> False | y # ys' \<Rightarrow> py_eq x y \<and> py_eq_list xs ys')"
| "py_eq_items [] e = True"
| "py_eq_items ((k, v) # d) e =
     ((case map_of e k of None \<Rightarrow> False | Some w \<Rightarrow> py_eq v w) \<and> py_eq_items d e)"
  by pat_completeness auto
termination
  by (relation "measure (\<lambda>x. case x of
          Inl (a, b) \<Rightarrow> 2 * size a + 1
        | Inr (Inl (xs, ys)) \<Rightarrow> 2 * size (JList xs)
        | Inr (Inr (d, e)) \<Rightarrow> 2 * size (JObj d))") auto

section \<open>The backing stores\<close>

text \<open>
  MongoDB is outside the repository. A collection of a database is the list of its
  documents in insertion order, and a collection that was never written is empty. A
  filter is a dictionary of field values that a document must hold; the match is
  equality of the JSON values, which is what MongoDB does for string identifiers and
  integer versions. The storage engine's generated \<open>_id\<close> is left out of the stored
  documents: \<open>strip_mongo_ids\<close> removes that key from every document read.
\<close>

definition mongo_match :: "doc \<Rightarrow> doc \<Rightarrow> bool" where
  "mongo_match flt d = list_all (\<lambda>(k, v). dict_get d k = Some v) flt"

definition find :: "doc \<Rightarrow> doc list \<Rightarrow> doc list" where
  "find flt docs = filter (mongo_match flt) docs"

definition insert_one :: "doc \<Rightarrow> doc list \<Rightarrow> doc list" where
  "insert_one d docs = docs @ [d]"

fun replace_one :: "doc \<Rightarrow> doc \<Rightarrow> doc list \<Rightarrow> doc list" where
  "replace_one flt new [] = []"
| "replace_one flt new (d # docs) =
     (if mongo_match flt d then new # docs else d # replace_one flt new docs)"

fun delete_one :: "doc \<Rightarrow> doc list \<Rightarrow> doc list" where
  "delete_one flt [] = []"
| "delete_one flt (d # docs) =
     (if mongo_match flt d then docs else d # delete_one flt docs)"

definition strip_mongo_ids :: "doc \<Rightarrow> doc" where
  "strip_mongo_ids d = (if dict_get d ''_id'' \<noteq> None then dict_pop d ''_id'' else d)"

definition strip_mongo_ids_list :: "doc list \<Rightarrow> doc list" where
  "strip_mongo_ids_list ds = map strip_mongo_ids ds"

section \<open>The metadata collector\<close>

text \<open>
  The result of \<open>jsonschema.validate\<close>, a library outside the repository: it returns,
  raises one \<open>ValidationError\<close> with a message, or raises \<open>SchemaError\<close>.
\<close>

datatype jsv_result = JsvOk | JsvValidationError string | JsvSchemaError

type_synonym jsonschema = "doc \<Rightarrow> doc \<Rightarrow> jsv_result"

text \<open>
  The fields of a \<open>MetadataCollector\<close>. The two databases map a collection name to its
  documents. The cache is the two-level dictionary \<open>__cache[collection][doc_id]\<close> of
  pairs (insertion time, document). The schemas of \<open>mmm.schemas\<close> are not part of the
  sources at hand and are fields here. The profiling counter \<open>used_time\<close> is left out.
\<close>

record mc =
  default_author :: string
  collection_names :: "string list"
  db :: "string \<Rightarrow> doc list"
  db_history :: "string \<Rightarrow> doc list"
  cache :: "string \<Rightarrow> (json \<Rightarrow> (real \<times> doc) option) option"
  metadata_schema :: doc
  schemas :: "string \<Rightarrow> doc option"

definition cache_timeout_s :: real where
  "cache_timeout_s = 300"

text \<open>Lists and dictionaries cannot be dictionary keys.\<close>

fun unhashable :: "json \<Rightarrow> bool" where
  "unhashable (JList xs) = True"
| "unhashable (JObj d) = True"
| "unhashable v = False"

text \<open>Keys that are equal in Python are one key: \<open>True\<close>, \<open>1\<close> and \<open>1.0\<close>.\<close>

fun dict_key :: "json \<Rightarrow> json" where
  "dict_key (JBool b) = JInt (if b then 1 else 0)"
| "dict_key (JFloat r) = (if of_int \<lfloor>r\<rfloor> = r then JInt \<lfloor>r\<rfloor> else JFloat r)"
| "dict_key v = v"

text \<open>
  Every operation returns the collector after the call together with its outcome: an
  exception does not undo the mutations made before it was raised. The clock reading
  \<open>now\<close> (\<open>time.time()\<close>) is an argument, one reading per call.
\<close>

definition add_to_cache :: "mc \<Rightarrow> real \<Rightarrow> string \<Rightarrow> doc \<Rightarrow> mc \<times> (error + unit)" where
  "add_to_cache st now collection d =
     (case dict_get d ''#id'' of
        None \<Rightarrow> (st, Inl (KeyError ''#id''))
      | Some doc_id \<Rightarrow>
          let inner = (case cache st collection of None \<Rightarrow> Map.empty | Some m \<Rightarrow> m);
              st1 = st\<lparr>cache := (cache st)(collection \<mapsto> inner)\<rparr>
          in if unhashable doc_id then (st1, Inl TypeError)
             else (st\<lparr>cache := (cache st)(collection \<mapsto> inner(dict_key doc_id \<mapsto> (now, d)))\<rparr>,
                   Inr ()))"

definition get_from_cache :: "mc \<Rightarrow> real \<Rightarrow> string \<Rightarrow> json \<Rightarrow> mc \<times> (error + doc option)" where
  "get_from_cache st now collection doc_id =
     (case cache st collection of
        None \<Rightarrow> (st, Inr None)
      | Some m \<Rightarrow>
          if unhashable doc_id then (st, Inl TypeError)
          else (case m (dict_key doc_id) of
                  None \<Rightarrow> (st, Inr None)
                | Some (timestamp, d) \<Rightarrow>
                    if now - timestamp > cache_timeout_s
                    then (st\<lparr>cache := (cache st)(collection \<mapsto> m(dict_key doc_id := None))\<rparr>,
                          Inr None)
                    else (st, Inr (Some d))))"

definition get_documents :: "mc \<Rightarrow> string \<Rightarrow> doc \<Rightarrow> bool \<Rightarrow> error + doc list" where
  "get_documents st collection mongo_filter history =
     (let dbs = (if history then db_history st else db st)
      in if collection \<notin> set (collection_names st) then Inl LookupError_collection
         else Inr (strip_mongo_ids_list (find mongo_filter (dbs collection))))"

text \<open>\<open>[d["#id"] for d in documents]\<close>: the first document without the key raises.\<close>

fun ids_of :: "doc list \<Rightarrow> error + json list" where
  "ids_of [] = Inr []"
| "ids_of (d # ds) =
     (case dict_get d ''#id'' of
        None \<Rightarrow> Inl (KeyError ''#id'')
      | Some i \<Rightarrow> (case ids_of ds of Inl e \<Rightarrow> Inl e | Inr is \<Rightarrow> Inr (i # is)))"

definition get_identifiers :: "mc \<Rightarrow> string \<Rightarrow> error + json list" where
  "get_identifiers st collection =
     (case get_documents st collection [] False of
        Inl e \<Rightarrow> Inl e
      | Inr documents \<Rightarrow> ids_of documents)"

text \<open>
  \<open>get_document\<close>: \<open>version = 0\<close> is the default, "no version given"; only then is
  the current database read.
\<close>

definition get_document :: "mc \<Rightarrow> real \<Rightarrow> string \<Rightarrow> json \<Rightarrow> int \<Rightarrow> mc \<times> (error + doc)" where
  "get_document st now collection document_id version =
     (case get_from_cache st now collection document_id of
        (st1, Inl e) \<Rightarrow> (st1, Inl e)
      | (st1, Inr cached) \<Rightarrow>
          if cached \<noteq> None \<and> cached \<noteq> Some [] then (st1, Inr (the cached))
          else
            let dbs = (if version \<noteq> 0 then db_history st1 else db st1)
            in if collection \<notin> set (collection_names st1) then (st1, Inl LookupError_collection)
               else
                 let mongo_filter = [(''#id'', document_id)] @
                        (if version \<noteq> 0 then [(''#version'', JInt version)] else []);
                     documents = find mongo_filter (dbs collection)
                 in if length documents > 1 then (st1, Inl AssertionError_multiple)
                    else if length documents = 0 then (st1, Inl LookupError_not_found)
                    else
                      let d = strip_mongo_ids (hd documents)
                      in (case add_to_cache st1 now collection d of
                            (st2, Inl e) \<Rightarrow> (st2, Inl e)
                          | (st2, Inr u) \<Rightarrow> (st2, Inr d)))"

definition get_document_history :: "mc \<Rightarrow> string \<Rightarrow> json \<Rightarrow> error + doc list" where
  "get_document_history st collection document_id =
     (let documents = map strip_mongo_ids (find [(''#id'', document_id)] (db_history st collection))
      in if length documents = 0 then Inl LookupError_not_found else Inr documents)"

definition delete_document :: "mc \<Rightarrow> string \<Rightarrow> json \<Rightarrow> mc" where
  "delete_document st collection document_id =
     st\<lparr>db := (db st)(collection := delete_one [(''#id'', document_id)] (db st collection))\<rparr>"

section \<open>Validation\<close>

text \<open>
  A diagnostic is one formatted string of the source, kept here by its fields:
  \<^item> \<open>Schema_failure i s m\<close> is \<^verbatim>\<open>Document='i' not valid for schema 's'. Cause: m\<close>;
  \<^item> \<open>Broken_link c i t j\<close> is \<^verbatim>\<open>c:'i' broken link t:'j'\<close>;
  \<^item> \<open>Deprecated_deployment c i\<close> is \<^verbatim>\<open>c:i 'deployment' in Sensors is deprecated!\<close>;
  \<^item> \<open>Ignored_dataSource c i\<close> is \<^verbatim>\<open>c:i 'dataSource' in datasets root will be ignored!\<close>.
\<close>

datatype diag =
    Schema_failure json json string
  | Broken_link string json string json
  | Deprecated_deployment string json
  | Ignored_dataSource string json

text \<open>
  The text of a diagnostic. Python's \<open>str\<close> of a string is the string itself; its
  formatting of the other JSON values is the argument \<open>repr\<close>.
\<close>

definition py_str :: "(json \<Rightarrow> string) \<Rightarrow> json \<Rightarrow> string" where
  "py_str repr v = (case v of JStr s \<Rightarrow> s | _ \<Rightarrow> repr v)"

fun diag_text :: "(json \<Rightarrow> string) \<Rightarrow> diag \<Rightarrow> string" where
  "diag_text repr (Schema_failure i s m) =
     ''[red]Document='' @ [CHR 0x27] @ py_str repr i @ [CHR 0x27] @ '' not valid for schema '' @
     [CHR 0x27] @ py_str repr s @ [CHR 0x27] @ ''[/red]. Cause: '' @ m"
| "diag_text repr (Broken_link c i t j) =
     c @ '':'' @ [CHR 0x27] @ py_str repr i @ [CHR 0x27] @ '' broken link '' @
     t @ '':'' @ [CHR 0x27] @ py_str repr j @ [CHR 0x27]"
| "diag_text repr (Deprecated_deployment c i) =
     c @ '':'' @ py_str repr i @ '' '' @ [CHR 0x27] @ ''deployment'' @ [CHR 0x27] @
     '' in Sensors is deprecated!''"
| "diag_text repr (Ignored_dataSource c i) =
     c @ '':'' @ py_str repr i @ '' '' @ [CHR 0x27] @ ''dataSource'' @ [CHR 0x27] @
     '' in datasets root will be ignored!''"

definition validate_schema :: "jsonschema \<Rightarrow> doc \<Rightarrow> doc \<Rightarrow> diag list \<Rightarrow> bool \<Rightarrow> error + diag list" where
  "validate_schema jsv d schema errors verbose =
     (case dict_get schema ''$id'' of
        None \<Rightarrow> Inl ValueError_schema
      | Some schema_id \<Rightarrow>
          if verbose \<and> dict_get d ''#id'' = None then Inl (KeyError ''#id'')
          else (case jsv d schema of
                  JsvOk \<Rightarrow> Inr errors
                | JsvSchemaError \<Rightarrow> Inl SchemaError
                | JsvValidationError message \<Rightarrow>
                    (case dict_get d ''#id'' of
                       None \<Rightarrow> Inl (KeyError ''#id'')
                     | Some i \<Rightarrow> Inr (errors @ [Schema_failure i schema_id message]))))"

text \<open>
  What \<open>validate_document\<close> prints: the warning of a collection without schema, then
  one line per error. Its outcome is a truth value, or the \<open>ValueError\<close> whose message
  holds the error list.
\<close>

datatype console = Warning_no_schema string | Error_line diag

definition validate_document ::
  "jsonschema \<Rightarrow> doc \<Rightarrow> (string \<Rightarrow> doc option) \<Rightarrow> doc \<Rightarrow> string \<Rightarrow> bool \<Rightarrow>
     console list \<times> diag list \<times> (error + bool)" where
  "validate_document jsv mmm_metadata mmm_schemas d collection exception =
     (case validate_schema jsv d mmm_metadata [] False of
        Inl e \<Rightarrow> ([], [], Inl e)
      | Inr errors1 \<Rightarrow>
          (case (case mmm_schemas collection of
                   None \<Rightarrow> ([Warning_no_schema collection], Inr errors1)
                 | Some schema \<Rightarrow> ([], validate_schema jsv d schema errors1 False)) of
             (out, Inl e) \<Rightarrow> (out, [], Inl e)
           | (out, Inr errors) \<Rightarrow>
               if errors \<noteq> []
               then (out @ map Error_line errors, errors,
                     if exception then Inl ValueError_invalid else Inr False)
               else (out, errors, Inr True)))"

section \<open>Document operations\<close>

text \<open>
  \<open>{key: value for key, value in doc.items() if key.startswith("#")}\<close> and its
  complement \<open>strip_metadata_fields\<close>.
\<close>

definition metadata_fields :: "doc \<Rightarrow> doc" where
  "metadata_fields d = filter (\<lambda>(key, value). startswith key ''#'') d"

definition strip_metadata_fields :: "doc \<Rightarrow> doc" where
  "strip_metadata_fields d = filter (\<lambda>(key, value). \<not> startswith key ''#'') d"

text \<open>\<open>metadata["#version"] += 1\<close>.\<close>

definition increment_version :: "doc \<Rightarrow> error + doc" where
  "increment_version metadata =
     (case dict_get metadata ''#version'' of
        None \<Rightarrow> Inl (KeyError ''#version'')
      | Some (JInt n) \<Rightarrow> Inr (dict_set metadata ''#version'' (JInt (n + 1)))
      | Some (JBool b) \<Rightarrow> Inr (dict_set metadata ''#version'' (JInt ((if b then 1 else 0) + 1)))
      | Some (JFloat r) \<Rightarrow> Inr (dict_set metadata ''#version'' (JFloat (r + 1)))
      | Some v \<Rightarrow> Inl TypeError)"

text \<open>
  \<open>replace_document\<close>. The argument \<open>author\<close> is the empty string when the caller
  gives none (the default \<open>False\<close> and the empty string are both false);
  \<open>timestamp\<close> is the result of \<open>get_timestamp_string()\<close>.
\<close>

definition replace_document ::
  "jsonschema \<Rightarrow> mc \<Rightarrow> real \<Rightarrow> string \<Rightarrow> string \<Rightarrow> json \<Rightarrow> doc \<Rightarrow> string \<Rightarrow> bool \<Rightarrow>
     mc \<times> (error + doc)" where
  "replace_document jsv st now timestamp collection document_id document author force =
     (case dict_get document ''#id'' of
        None \<Rightarrow> (st, Inl (KeyError ''#id''))
      | Some i \<Rightarrow>
          if \<not> py_eq i document_id then (st, Inl ValueError_mismatch)
          else
            let author1 = (if author = [] then default_author st else author)
            in (case get_document st now collection document_id 0 of
                  (st1, Inl e) \<Rightarrow> (st1, Inl e)
                | (st1, Inr old_document) \<Rightarrow>
                    let metadata = metadata_fields old_document;
                        old_contents = strip_metadata_fields old_document
                    in (case increment_version metadata of
                          Inl e \<Rightarrow> (st1, Inl e)
                        | Inr metadata1 \<Rightarrow>
                            let metadata2 = dict_set metadata1 ''#modificationDate'' (JStr timestamp);
                                metadata3 = dict_set metadata2 ''#author'' (JStr author1);
                                contents = strip_metadata_fields document
                            in if py_eq (JObj contents) (JObj old_contents) \<and> \<not> force
                               then (st1, Inl AssertionError_equal)
                               else
                                 let new_document = dict_update metadata3 contents
                                 in (case validate_document jsv (metadata_schema st1) (schemas st1)
                                            new_document collection (\<not> force) of
                                       (out, errors, Inl e) \<Rightarrow> (st1, Inl e)
                                     | (out, errors, Inr ok) \<Rightarrow>
                                         (st1\<lparr>db := (db st1)(collection :=
                                                  replace_one [(''#id'', document_id)] new_document
                                                    (db st1 collection)),
                                               db_history := (db_history st1)(collection :=
                                                  insert_one new_document (db_history st1 collection))\<rparr>,
                                          Inr new_document)))))"

text \<open>\<open>x in xs\<close> on a list compares with \<open>==\<close>.\<close>

definition py_in :: "json \<Rightarrow> json list \<Rightarrow> bool" where
  "py_in x xs = list_ex (\<lambda>y. py_eq y x) xs"

definition insert_document ::
  "jsonschema \<Rightarrow> mc \<Rightarrow> real \<Rightarrow> string \<Rightarrow> string \<Rightarrow> doc \<Rightarrow> string \<Rightarrow> bool \<Rightarrow> bool \<Rightarrow> bool \<Rightarrow>
     mc \<times> (error + doc)" where
  "insert_document jsv st now timestamp collection document author force force_meta update =
     (let author1 = (if author = [] then default_author st else author)
      in if collection \<notin> set (collection_names st) then (st, Inl ValueError_collection)
         else (case dict_get document ''#id'' of
                 None \<Rightarrow> (st, Inl (KeyError ''#id''))
               | Some i \<Rightarrow>
                   (case get_identifiers st collection of
                      Inl e \<Rightarrow> (st, Inl e)
                    | Inr identifiers \<Rightarrow>
                        if py_in i identifiers
                        then (if update
                              then replace_document jsv st now timestamp collection i document [] force
                              else (st, Inl NameError))
                        else
                          let new_document =
                                (if \<not> force_meta
                                 then dict_update
                                        [(''#id'', i),
                                         (''#version'', JInt 1),
                                         (''#creationDate'', JStr timestamp),
                                         (''#modificationDate'', JStr timestamp),
                                         (''#author'', JStr author1)]
                                        (strip_metadata_fields document)
                                 else document)
                          in (case validate_document jsv (metadata_schema st) (schemas st)
                                     new_document collection (\<not> force) of
                                (out, errors, Inl e) \<Rightarrow> (st, Inl e)
                              | (out, errors, Inr ok) \<Rightarrow>
                                  (st\<lparr>db := (db st)(collection :=
                                           insert_one new_document (db st collection)),
                                        db_history := (db_history st)(collection :=
                                           insert_one new_document (db_history st collection))\<rparr>,
                                   Inr new_document)))))"

section \<open>Scanning the relations\<close>

definition check_link ::
  "mc \<Rightarrow> real \<Rightarrow> string \<Rightarrow> json \<Rightarrow> string \<Rightarrow> json \<Rightarrow> diag list \<Rightarrow> mc \<times> (error + diag list)" where
  "check_link st now parent_collection parent_doc_id target_collection target_doc errors =
     (case get_document st now target_collection target_doc 0 of
        (st1, Inr d) \<Rightarrow>
          if d = [] then (st1, Inl ValueError_never_null) else (st1, Inr errors)
      | (st1, Inl e) \<Rightarrow>
          if is_LookupError e
          then (st1, Inr (errors @
                  [Broken_link parent_collection parent_doc_id target_collection target_doc]))
          else (st1, Inl e))"

text \<open>\<open>for val in value: errors = self.__check_link(collection, doc_id, key[1:], val, errors)\<close>\<close>

fun check_links ::
  "mc \<Rightarrow> real \<Rightarrow> string \<Rightarrow> json \<Rightarrow> string \<Rightarrow> json list \<Rightarrow> diag list \<Rightarrow> mc \<times> (error + diag list)" where
  "check_links st now collection doc_id target [] errors = (st, Inr errors)"
| "check_links st now collection doc_id target (val # vals) errors =
     (case check_link st now collection doc_id target val errors of
        (st1, Inl e) \<Rightarrow> (st1, Inl e)
      | (st1, Inr errors1) \<Rightarrow> check_links st1 now collection doc_id target vals errors1)"

text \<open>
  \<open>__check_dict\<close> walks the items of a dictionary; \<open>check_sublist\<close> is its inner loop
  over the elements of a list value, which looks into the dictionaries only. The keys of
  a JSON dictionary are strings, so the test on the type of the key never fails.
\<close>

function check_dict ::
    "mc \<Rightarrow> real \<Rightarrow> string \<Rightarrow> json \<Rightarrow> doc \<Rightarrow> diag list \<Rightarrow> mc \<times> (error + diag list)"
  and check_sublist ::
    "mc \<Rightarrow> real \<Rightarrow> string \<Rightarrow> json \<Rightarrow> json list \<Rightarrow> diag list \<Rightarrow> mc \<times> (error + diag list)"
where
  "check_dict st now collection doc_id [] errors = (st, Inr errors)"
| "check_dict st now collection doc_id ((key, value) # items) errors =
     (case
        (if startswith key ''@''
         then (case value of
                 JStr s \<Rightarrow> check_link st now collection doc_id (drop 1 key) value errors
               | JList vals \<Rightarrow> check_links st now collection doc_id (drop 1 key) vals errors
               | _ \<Rightarrow> (st, Inl ValueError_wrong_type))
         else (case value of
                 JObj d \<Rightarrow> check_dict st now collection doc_id d errors
               | JList subvalues \<Rightarrow> check_sublist st now collection doc_id subvalues errors
               | _ \<Rightarrow> (st, Inr errors)))
      of
        (st1, Inl e) \<Rightarrow> (st1, Inl e)
      | (st1, Inr errors1) \<Rightarrow> check_dict st1 now collection doc_id items errors1)"
| "check_sublist st now collection doc_id [] errors = (st, Inr errors)"
| "check_sublist st now collection doc_id (subvalue # subvalues) errors =
     (case
        (case subvalue of
           JObj d \<Rightarrow> check_dict st now collection doc_id d errors
         | _ \<Rightarrow> (st, Inr errors))
      of
        (st1, Inl e) \<Rightarrow> (st1, Inl e)
      | (st1, Inr errors1) \<Rightarrow> check_sublist st1 now collection doc_id subvalues errors1)"
  by pat_completeness auto
termination
  by (relation "measure (\<lambda>x. case x of
          Inl (st, now, collection, doc_id, d, errors) \<Rightarrow> size (JObj d)
        | Inr (st, now, collection, doc_id, vs, errors) \<Rightarrow> size (JList vs))") auto


section \<open>Health check\<close>






section \<open>Notions used in the statements\<close>

text \<open>
  The document that the specification expects of an insert: the generated metadata, with
  version 1 and one timestamp for creation and modification, followed by the caller's
  content.
\<close>

definition fresh_document :: "json \<Rightarrow> string \<Rightarrow> string \<Rightarrow> doc \<Rightarrow> doc" where
  "fresh_document i timestamp author contents =
     [(''#id'', i), (''#version'', JInt 1), (''#creationDate'', JStr timestamp),
      (''#modificationDate'', JStr timestamp), (''#author'', JStr author)] @ contents"

text \<open>
  The diagnostics that one schema contributes for a document with identifier \<open>i\<close>:
  the failure that \<open>jsonschema.validate\<close> reports, if it reports one.
\<close>

definition failures :: "jsonschema \<Rightarrow> json \<Rightarrow> doc \<Rightarrow> doc \<Rightarrow> diag list" where
  "failures jsv i d schema =
     (case (jsv d schema, dict_get schema ''$id'') of
        (JsvValidationError message, Some schema_id) \<Rightarrow> [Schema_failure i schema_id message]
      | _ \<Rightarrow> [])"

text \<open>
  A document is well typed for the scan when every link field holds a string or a list
  of strings, at any depth that the scan reaches.
\<close>

fun is_JStr :: "json \<Rightarrow> bool" where
  "is_JStr (JStr s) = True"
| "is_JStr v = False"

function links_ok :: "doc \<Rightarrow> bool" and links_ok_list :: "json list \<Rightarrow> bool" where
  "links_ok [] = True"
| "links_ok ((key, value) # items) =
     ((if startswith key ''@''
       then (case value of JStr s \<Rightarrow> True | JList vals \<Rightarrow> list_all is_JStr vals | _ \<Rightarrow> False)
       else (case value of JObj d \<Rightarrow> links_ok d | JList vs \<Rightarrow> links_ok_list vs | _ \<Rightarrow> True))
      \<and> links_ok items)"
| "links_ok_list [] = True"
| "links_ok_list (v # vs) = ((case v of JObj d \<Rightarrow> links_ok d | _ \<Rightarrow> True) \<and> links_ok_list vs)"
  by pat_completeness auto
termination
  by (relation "measure (\<lambda>x. case x of Inl d \<Rightarrow> size (JObj d) | Inr vs \<Rightarrow> size (JList vs))") auto

text \<open>
  The links of a document, in the order of the depth-first walk: the pairs of target
  collection (the key without its sigil) and target identifier. The walk enters the
  dictionaries that are field values and the dictionaries that are elements of a list
  value; it does not look below a link field.
\<close>

function links_of :: "doc \<Rightarrow> (string \<times> json) list"
  and links_of_list :: "json list \<Rightarrow> (string \<times> json) list" where
  "links_of [] = []"
| "links_of ((key, value) # items) =
     (if startswith key ''@''
      then (case value of JStr s \<Rightarrow> [(drop 1 key, value)]
            | JList vals \<Rightarrow> map (\<lambda>val. (drop 1 key, val)) vals | _ \<Rightarrow> [])
      else (case value of JObj d \<Rightarrow> links_of d | JList vs \<Rightarrow> links_of_list vs | _ \<Rightarrow> []))
     @ links_of items"
| "links_of_list [] = []"
| "links_of_list (v # vs) = (case v of JObj d \<Rightarrow> links_of d | _ \<Rightarrow> []) @ links_of_list vs"
  by pat_completeness auto
termination
  by (relation "measure (\<lambda>x. case x of Inl d \<Rightarrow> size (JObj d) | Inr vs \<Rightarrow> size (JList vs))") auto

text \<open>
  A link resolves when its target collection is known and its current database holds a
  document with the target identifier. The broken links of a list of links are the
  diagnostics of those that do not resolve, in order.
\<close>

definition resolves :: "mc \<Rightarrow> string \<Rightarrow> json \<Rightarrow> bool" where
  "resolves st t j = (t \<in> set (collection_names st) \<and> find [(''#id'', j)] (db st t) \<noteq> [])"

definition broken_links :: "mc \<Rightarrow> string \<Rightarrow> json \<Rightarrow> (string \<times> json) list \<Rightarrow> diag list" where
  "broken_links st c i ls =
     map (\<lambda>(t, j). Broken_link c i t j) (filter (\<lambda>(t, j). \<not> resolves st t j) ls)"

text \<open>
  What \<open>__ensure_ids\<close> checks at start-up and \<open>insert_document\<close> maintains: no
  two documents of a collection have the same identifier.
\<close>

definition unique_ids :: "mc \<Rightarrow> bool" where
  "unique_ids st =
     list_all (\<lambda>c. distinct (map (\<lambda>d. dict_get d ''#id'')
                         (filter (\<lambda>d. dict_get d ''#id'' \<noteq> None) (db st c))))
       (collection_names st)"

text \<open>
  The cache holds no entry for a document that is gone from the current database; an empty
  cache is coherent, reads keep it so, and only a delete can break it.
\<close>

definition cache_coherent :: "mc \<Rightarrow> bool" where
  "cache_coherent st =
     (\<forall>c m j t d. cache st c = Some m \<longrightarrow> m (JStr j) = Some (t, d) \<longrightarrow> resolves st c (JStr j))"

text \<open>
  Two collectors have the same stores when they differ in the cache at most.
\<close>

definition same_stores :: "mc \<Rightarrow> mc \<Rightarrow> bool" where
  "same_stores st st' = (st' = st\<lparr>cache := cache st'\<rparr>)"

text \<open>
  The outcome of a completed scan of the links \<open>ls\<close> of document \<open>i\<close> of
  collection \<open>c\<close>, started in \<open>st\<close> with the diagnostics \<open>errors\<close>: one
  diagnostic appended for each link that does not resolve, the stores untouched, the
  cache still coherent.
\<close>

definition scan_result ::
  "mc \<Rightarrow> string \<Rightarrow> json \<Rightarrow> diag list \<Rightarrow> (string \<times> json) list \<Rightarrow> mc \<times> (error + diag list) \<Rightarrow> bool" where
  "scan_result st c i errors ls r =
     (\<exists>st'. r = (st', Inr (errors @ broken_links st c i ls)) \<and> same_stores st st'
            \<and> cache_coherent st')"







section \<open>A small store for the concrete runs\<close>

text \<open>
  A validator that accepts every document, and one that checks the \<open>required\<close> list of
  a schema only.
\<close>

definition jsv_accept :: jsonschema where
  "jsv_accept d schema = JsvOk"

definition jsv_required :: jsonschema where
  "jsv_required d schema =
     (case dict_get schema ''required'' of
        Some (JList keys) \<Rightarrow>
          (case filter (\<lambda>k. case k of JStr s \<Rightarrow> dict_get d s = None | _ \<Rightarrow> False) keys of
             [] \<Rightarrow> JsvOk
           | k # ks \<Rightarrow> JsvValidationError ''a required property is missing'')
      | _ \<Rightarrow> JsvOk)"

definition envelope_schema :: doc where
  "envelope_schema =
     [(''$id'', JStr ''mmm:metadata''),
      (''required'', JList [JStr ''#id'', JStr ''#version'', JStr ''#author''])]"

definition sensors_schema :: doc where
  "sensors_schema =
     [(''$id'', JStr ''mmm:sensors''), (''required'', JList [JStr ''name''])]"

text \<open>An empty store with three collections; only \<open>sensors\<close> has a schema.\<close>

definition mc0 :: mc where
  "mc0 = \<lparr>default_author = ''admin'',
          collection_names = [''sensors'', ''stations'', ''people''],
          db = (\<lambda>c. []),
          db_history = (\<lambda>c. []),
          cache = (\<lambda>c. None),
          metadata_schema = envelope_schema,
          schemas = (\<lambda>c. if c = ''sensors'' then Some sensors_schema else None)\<rparr>"

definition ctd :: doc where
  "ctd = [(''#id'', JStr ''sensor1''), (''name'', JStr ''CTD'')]"

definition ctd2 :: doc where
  "ctd2 = [(''#id'', JStr ''sensor1''), (''name'', JStr ''CTD-2'')]"

text \<open>The stored versions these two payloads lead to.\<close>

definition ctd_v1 :: doc where
  "ctd_v1 = [(''#id'', JStr ''sensor1''), (''#version'', JInt 1),
             (''#creationDate'', JStr ''2024-01-01T00:00:00Z''),
             (''#modificationDate'', JStr ''2024-01-01T00:00:00Z''),
             (''#author'', JStr ''admin''), (''name'', JStr ''CTD'')]"

definition ctd_v2 :: doc where
  "ctd_v2 = [(''#id'', JStr ''sensor1''), (''#version'', JInt 2),
             (''#creationDate'', JStr ''2024-01-01T00:00:00Z''),
             (''#modificationDate'', JStr ''2024-01-02T00:00:00Z''),
             (''#author'', JStr ''admin''), (''name'', JStr ''CTD-2'')]"

text \<open>
  A run of the store: \<open>sensor1\<close> is inserted (\<open>mc1\<close>), replaced at clock reading 0
  (\<open>mc2\<close>), read at clock reading 400 (\<open>mc3\<close>), deleted (\<open>mc4\<close>) and inserted
  again (\<open>mc5\<close>).
\<close>

definition mc1 :: mc where
  "mc1 = fst (insert_document jsv_accept mc0 0 ''2024-01-01T00:00:00Z'' ''sensors'' ctd
                [] False False False)"

definition mc2 :: mc where
  "mc2 = fst (replace_document jsv_accept mc1 0 ''2024-01-02T00:00:00Z'' ''sensors''
                (JStr ''sensor1'') ctd2 [] False)"

definition mc3 :: mc where
  "mc3 = fst (get_document mc2 400 ''sensors'' (JStr ''sensor1'') 0)"

definition mc4 :: mc where
  "mc4 = delete_document mc3 ''sensors'' (JStr ''sensor1'')"

definition mc5 :: mc where
  "mc5 = fst (insert_document jsv_accept mc4 401 ''2024-01-03T00:00:00Z'' ''sensors'' ctd
                [] False False False)"

text \<open>A document without version and without name.\<close>

definition bare_sensor :: doc where
  "bare_sensor = [(''#id'', JStr ''sensor9''), (''#author'', JStr ''admin'')]"

text \<open>
  A sensor document with four links, one at the top and three inside a list of contacts;
  only \<open>sensors:sensor1\<close> exists in \<open>mc1\<close>.
\<close>

definition linked_doc :: doc where
  "linked_doc =
     [(''#id'', JStr ''sensor1''), (''name'', JStr ''CTD''),
      (''@people'', JStr ''bob''),
      (''contacts'', JList [JObj [(''role'', JStr ''owner''), (''@people'', JStr ''ann'')],
                            JObj [(''@sensors'', JList [JStr ''sensor1'', JStr ''sensor7''])]])]"



text \<open>
  A payload that has an identifier but neither version nor author, and one that has no
  identifier at all.
\<close>

definition id_only_sensor :: doc where
  "id_only_sensor = [(''#id'', JStr ''sensor9''), (''name'', JStr ''CTD'')]"

definition nameless_doc :: doc where
  "nameless_doc = [(''name'', JStr ''CTD'')]"

section \<open>Properties of the store primitives\<close>

lemma delete_one_absent: "find flt docs = [] \<Longrightarrow> delete_one flt docs = docs"
  by (induction docs) (auto simp: find_def split: if_splits)

lemma delete_one_unique:
  "length (find flt docs) \<le> 1 \<Longrightarrow> delete_one flt docs = filter (\<lambda>d. \<not> mongo_match flt d) docs"
proof (induction docs)
  case Nil
  then show ?case by simp
next
  case (Cons d docs)
  show ?case
  proof (cases "mongo_match flt d")
    case True
    with Cons.prems have "find flt docs = []" by (simp add: find_def)
    then have "filter (\<lambda>d. \<not> mongo_match flt d) docs = docs"
      by (simp add: find_def filter_empty_conv)
    with True show ?thesis by simp
  next
    case False
    with Cons show ?thesis by (simp add: find_def)
  qed
qed

lemma find_filter_not: "find flt (filter (\<lambda>d. \<not> mongo_match flt d) docs) = []"
  by (simp add: find_def filter_empty_conv)

lemma mongo_match_id: "mongo_match [(''#id'', i)] = (\<lambda>d. dict_get d ''#id'' = Some i)"
  by (rule ext) (simp add: mongo_match_def)

lemma get_from_cache_stores:
  "get_from_cache st now c i = (st', r) \<Longrightarrow> st' = st\<lparr>cache := cache st'\<rparr>"
  by (auto simp: get_from_cache_def split: option.splits if_splits prod.splits)


lemma cache_only_trans:
  "st1 = st\<lparr>cache := a\<rparr> \<Longrightarrow> st2 = st1\<lparr>cache := b\<rparr> \<Longrightarrow> st2 = st\<lparr>cache := cache st2\<rparr>"
  by simp



lemma dict_get_dict_pop:
  "k \<noteq> k' \<Longrightarrow> dict_get (dict_pop d k') k = dict_get d k"
  by (induction d) (auto simp: dict_pop_def dict_get_def)

lemma dict_get_strip_mongo_ids:
  "k \<noteq> ''_id'' \<Longrightarrow> dict_get (strip_mongo_ids d) k = dict_get d k"
  by (simp add: strip_mongo_ids_def dict_get_dict_pop)

lemma find_singleton_match:
  "find flt docs = [d] \<Longrightarrow> mongo_match flt d"
proof -
  assume "find flt docs = [d]"
  then have "d \<in> set (filter (mongo_match flt) docs)" by (simp add: find_def)
  then show ?thesis by simp
qed

section \<open>Properties of dictionaries and of single reads\<close>

lemma dict_set_new: "k \<notin> fst ` set d \<Longrightarrow> dict_set d k v = d @ [(k, v)]"
  by (induction d) auto

lemma dict_update_disjoint:
  "distinct (map fst e) \<Longrightarrow> fst ` set e \<inter> fst ` set d = {} \<Longrightarrow> dict_update d e = d @ e"
proof (induction e arbitrary: d)
  case Nil
  then show ?case by simp
next
  case (Cons p e)
  obtain k v where p: "p = (k, v)" by (cases p)
  from Cons.prems p have k: "k \<notin> fst ` set d" by auto
  from Cons.prems have "distinct (map fst e)" by simp
  moreover from Cons.prems p have "fst ` set e \<inter> fst ` set (d @ [(k, v)]) = {}" by auto
  ultimately have "dict_update (d @ [(k, v)]) e = (d @ [(k, v)]) @ e" by (rule Cons.IH)
  with k p show ?case by (simp add: dict_set_new)
qed

lemma strip_metadata_fields_keys:
  "(k, v) \<in> set (strip_metadata_fields d) \<Longrightarrow> \<not> startswith k ''#''"
  by (auto simp: strip_metadata_fields_def)

lemma strip_metadata_fields_distinct:
  "distinct (map fst d) \<Longrightarrow> distinct (map fst (strip_metadata_fields d))"
  by (simp add: strip_metadata_fields_def distinct_map_filter)

lemma dict_get_append_left:
  "dict_get d k = Some v \<Longrightarrow> dict_get (d @ e) k = Some v"
  by (simp add: dict_get_def)

lemma insert_new_document:
  assumes "distinct (map fst document)"
  shows "dict_update [(''#id'', i), (''#version'', JInt 1), (''#creationDate'', JStr ts),
                      (''#modificationDate'', JStr ts), (''#author'', JStr a)]
           (strip_metadata_fields document)
         = fresh_document i ts a (strip_metadata_fields document)"
proof -
  have "fst ` set (strip_metadata_fields document) \<inter>
        fst ` set [(''#id'', i), (''#version'', JInt 1), (''#creationDate'', JStr ts),
                   (''#modificationDate'', JStr ts), (''#author'', JStr a)] = {}"
    by (auto dest!: strip_metadata_fields_keys simp: startswith_def)
  then show ?thesis
    unfolding fresh_document_def
    using strip_metadata_fields_distinct [OF assms] by (rule dict_update_disjoint [rotated])
qed


lemma get_from_cache_outcome:
  "cache st' = cache st \<Longrightarrow> snd (get_from_cache st' now c i) = snd (get_from_cache st now c i)"
  by (simp add: get_from_cache_def split: option.splits prod.splits)

lemma get_identifiers_empty:
  "c \<in> set (collection_names st) \<Longrightarrow> db st c = [] \<Longrightarrow> get_identifiers st c = Inr []"
  by (simp add: get_identifiers_def get_documents_def find_def strip_mongo_ids_list_def)

lemma get_document_single:
  assumes miss: "snd (get_from_cache st now c (JStr i)) = Inr None"
      and known: "c \<in> set (collection_names st)"
      and one: "find [(''#id'', JStr i)] (db st c) = [d]"
  shows "snd (get_document st now c (JStr i) 0) = Inr (strip_mongo_ids d)"
proof -
  obtain st1 where g: "get_from_cache st now c (JStr i) = (st1, Inr None)"
    using miss by (cases "get_from_cache st now c (JStr i)") auto
  have s1: "st1 = st\<lparr>cache := cache st1\<rparr>" using get_from_cache_stores [OF g] .
  then have dbs: "db st1 = db st" "collection_names st1 = collection_names st"
    by (metis mc.select_convs(3) mc.surjective mc.update_convs(5),
        metis mc.select_convs(2) mc.surjective mc.update_convs(5))
  have "mongo_match [(''#id'', JStr i)] d" using find_singleton_match [OF one] .
  then have "dict_get (strip_mongo_ids d) ''#id'' = Some (JStr i)"
    by (simp add: mongo_match_def dict_get_strip_mongo_ids)
  then have "snd (add_to_cache st1 now c (strip_mongo_ids d)) = Inr ()"
    by (simp add: add_to_cache_def Let_def)
  then obtain st2 where "add_to_cache st1 now c (strip_mongo_ids d) = (st2, Inr ())"
    by (metis prod.collapse)
  then show ?thesis
    using g dbs known one
    by (simp add: get_document_def Let_def)
qed

section \<open>Properties of the metadata fields and of validation\<close>








lemma cache_only_fields:
  assumes "st1 = st\<lparr>cache := a\<rparr>"
  shows "db st1 = db st" and "db_history st1 = db_history st"
    and "collection_names st1 = collection_names st" and "default_author st1 = default_author st"
    and "metadata_schema st1 = metadata_schema st" and "schemas st1 = schemas st"
  using assms by simp_all

lemma validate_schema_failures:
  assumes "dict_get d ''#id'' = Some i" and "dict_get schema ''$id'' \<noteq> None"
      and "jsv d schema \<noteq> JsvSchemaError"
  shows "validate_schema jsv d schema errors verbose = Inr (errors @ failures jsv i d schema)"
  using assms by (auto simp: validate_schema_def failures_def split: option.splits jsv_result.splits)

section \<open>Properties of the scan\<close>

lemma distinct_filter_le1:
  "distinct (map f (filter (\<lambda>d. f d \<noteq> None) xs)) \<Longrightarrow> length (filter (\<lambda>d. f d = Some j) xs) \<le> 1"
proof (induction xs)
  case Nil
  then show ?case by simp
next
  case (Cons x xs)
  show ?case
  proof (cases "f x = Some j")
    case True
    with Cons.prems have "Some j \<notin> f ` set (filter (\<lambda>d. f d \<noteq> None) xs)" by auto
    then have "filter (\<lambda>d. f d = Some j) xs = []"
      by (force simp: filter_empty_conv image_iff)
    with True show ?thesis by simp
  next
    case False
    with Cons show ?thesis by (cases "f x") auto
  qed
qed

lemma unique_ids_find:
  "unique_ids st \<Longrightarrow> c \<in> set (collection_names st) \<Longrightarrow> length (find [(''#id'', j)] (db st c)) \<le> 1"
  unfolding unique_ids_def find_def mongo_match_id list_all_iff
  using distinct_filter_le1 [of "\<lambda>d. dict_get d ''#id''" "db st c" j] by blast

lemma resolves_cache_only: "st1 = st\<lparr>cache := a\<rparr> \<Longrightarrow> resolves st1 = resolves st"
  by (rule ext, rule ext) (simp add: resolves_def)

lemma unique_ids_cache_only: "st1 = st\<lparr>cache := a\<rparr> \<Longrightarrow> unique_ids st1 = unique_ids st"
  by (simp add: unique_ids_def)

lemma same_stores_refl: "same_stores st st"
  by (simp add: same_stores_def)

lemma same_stores_update: "same_stores st (st\<lparr>cache := a\<rparr>)"
  by (simp add: same_stores_def)

lemma same_stores_trans: "same_stores st st1 \<Longrightarrow> same_stores st1 st2 \<Longrightarrow> same_stores st st2"
  unfolding same_stores_def by (rule cache_only_trans)

lemma same_stores_fields:
  assumes "same_stores st st1"
  shows "db st1 = db st" and "db_history st1 = db_history st"
    and "collection_names st1 = collection_names st" and "default_author st1 = default_author st"
    and "metadata_schema st1 = metadata_schema st" and "schemas st1 = schemas st"
  using assms unfolding same_stores_def by (rule cache_only_fields)+

lemma same_stores_resolves: "same_stores st st1 \<Longrightarrow> resolves st1 = resolves st"
  unfolding same_stores_def by (rule resolves_cache_only)

lemma same_stores_unique_ids: "same_stores st st1 \<Longrightarrow> unique_ids st1 = unique_ids st"
  unfolding same_stores_def by (rule unique_ids_cache_only)

lemma same_stores_broken_links: "same_stores st st1 \<Longrightarrow> broken_links st1 = broken_links st"
  by (intro ext) (simp add: broken_links_def same_stores_resolves)

lemma get_from_cache_string:
  assumes co: "cache_coherent st"
  shows "\<exists>st1 r. get_from_cache st now c (JStr j) = (st1, Inr r) \<and> same_stores st st1
           \<and> cache_coherent st1 \<and> (r \<noteq> None \<longrightarrow> resolves st c (JStr j))"
proof (cases "cache st c")
  case None
  then show ?thesis using co by (simp add: get_from_cache_def same_stores_refl)
next
  case (Some m)
  show ?thesis
  proof (cases "m (JStr j)")
    case None
    with Some show ?thesis using co by (simp add: get_from_cache_def same_stores_refl)
  next
    case (Some p)
    obtain ts d where p: "p = (ts, d)" by (cases p)
    show ?thesis
    proof (cases "now - ts > cache_timeout_s")
      case True
      let ?st1 = "st\<lparr>cache := (cache st)(c \<mapsto> m(JStr j := None))\<rparr>"
      have g: "get_from_cache st now c (JStr j) = (?st1, Inr None)"
        using \<open>cache st c = Some m\<close> Some p True by (simp add: get_from_cache_def)
      have r: "resolves ?st1 = resolves st" by (rule resolves_cache_only) simp
      have "cache_coherent ?st1"
        unfolding cache_coherent_def r
      proof (intro allI impI)
        fix c' m' j' t' d'
        assume a: "cache ?st1 c' = Some m'" and b: "m' (JStr j') = Some (t', d')"
        show "resolves st c' (JStr j')"
        proof (cases "c' = c")
          case True
          with a have "m' = m(JStr j := None)" by simp
          with b have "m (JStr j') = Some (t', d')" by (simp split: if_splits)
          with co \<open>cache st c = Some m\<close> True show ?thesis
            unfolding cache_coherent_def by blast
        next
          case False
          with a have "cache st c' = Some m'" by simp
          with co b show ?thesis unfolding cache_coherent_def by blast
        qed
      qed
      with g show ?thesis by (simp add: same_stores_update)
    next
      case False
      have g: "get_from_cache st now c (JStr j) = (st, Inr (Some d))"
        using \<open>cache st c = Some m\<close> Some p False by (simp add: get_from_cache_def)
      have "resolves st c (JStr j)"
        using co \<open>cache st c = Some m\<close> Some p unfolding cache_coherent_def by blast
      with g co show ?thesis by (simp add: same_stores_refl)
    qed
  qed
qed

lemma add_to_cache_string:
  assumes co: "cache_coherent st" and i: "dict_get d ''#id'' = Some (JStr j)"
      and r: "resolves st c (JStr j)"
  shows "\<exists>st'. add_to_cache st now c d = (st', Inr ()) \<and> same_stores st st'
           \<and> cache_coherent st'"
proof -
  let ?inner = "case cache st c of None \<Rightarrow> Map.empty | Some m \<Rightarrow> m"
  let ?st' = "st\<lparr>cache := (cache st)(c \<mapsto> ?inner(JStr j \<mapsto> (now, d)))\<rparr>"
  have a: "add_to_cache st now c d = (?st', Inr ())"
    using i by (simp add: add_to_cache_def Let_def)
  have rs: "resolves ?st' = resolves st" by (rule resolves_cache_only) simp
  have "cache_coherent ?st'"
    unfolding cache_coherent_def rs
  proof (intro allI impI)
    fix c' m' j' t' d'
    assume a: "cache ?st' c' = Some m'" and b: "m' (JStr j') = Some (t', d')"
    show "resolves st c' (JStr j')"
    proof (cases "c' = c")
      case True
      with a have m': "m' = ?inner(JStr j \<mapsto> (now, d))" by simp
      show ?thesis
      proof (cases "j' = j")
        case True
        with r \<open>c' = c\<close> show ?thesis by simp
      next
        case False
        with b m' have "?inner (JStr j') = Some (t', d')" by simp
        then obtain m where "cache st c = Some m" "m (JStr j') = Some (t', d')"
          by (cases "cache st c") auto
        with co \<open>c' = c\<close> show ?thesis unfolding cache_coherent_def by blast
      qed
    next
      case False
      with a have "cache st c' = Some m'" by simp
      with co b show ?thesis unfolding cache_coherent_def by blast
    qed
  qed
  with a show ?thesis by (simp add: same_stores_update)
qed

lemma get_document_string:
  assumes u: "unique_ids st" and co: "cache_coherent st"
  shows "\<exists>st' r. get_document st now c (JStr j) 0 = (st', r) \<and> same_stores st st'
           \<and> cache_coherent st'
           \<and> (if resolves st c (JStr j) then \<exists>d. r = Inr d \<and> d \<noteq> []
               else \<exists>e. r = Inl e \<and> is_LookupError e)"
proof -
  obtain st1 r1 where g: "get_from_cache st now c (JStr j) = (st1, Inr r1)"
    and s1: "same_stores st st1" and co1: "cache_coherent st1"
    and hit: "r1 \<noteq> None \<longrightarrow> resolves st c (JStr j)"
    using get_from_cache_string [OF co] by blast
  note f = same_stores_fields [OF s1]
  show ?thesis
  proof (cases "r1 \<noteq> None \<and> r1 \<noteq> Some []")
    case True
    then obtain d where "r1 = Some d" "d \<noteq> []" by auto
    with g True have "get_document st now c (JStr j) 0 = (st1, Inr d)"
      by (simp add: get_document_def)
    moreover from hit \<open>r1 = Some d\<close> have "resolves st c (JStr j)" by simp
    ultimately show ?thesis using s1 co1 \<open>d \<noteq> []\<close> by (intro exI [of _ st1] exI [of _ "Inr d"]) simp
  next
    case False
    show ?thesis
    proof (cases "c \<in> set (collection_names st)")
      case unknown: False
      with g False f have "get_document st now c (JStr j) 0 = (st1, Inl LookupError_collection)"
        by (auto simp: get_document_def)
      moreover from unknown have "\<not> resolves st c (JStr j)" by (simp add: resolves_def)
      ultimately show ?thesis using s1 co1
        by (intro exI [of _ st1] exI [of _ "Inl LookupError_collection"]) simp
    next
      case known: True
      have le: "length (find [(''#id'', JStr j)] (db st c)) \<le> 1"
        using unique_ids_find [OF u known] .
      show ?thesis
      proof (cases "find [(''#id'', JStr j)] (db st c)")
        case Nil
        with g False f known have "get_document st now c (JStr j) 0 = (st1, Inl LookupError_not_found)"
          by (auto simp: get_document_def)
        moreover from Nil have "\<not> resolves st c (JStr j)" by (simp add: resolves_def)
        ultimately show ?thesis using s1 co1
          by (intro exI [of _ st1] exI [of _ "Inl LookupError_not_found"]) simp
      next
        case (Cons d0 ds)
        with le have one: "find [(''#id'', JStr j)] (db st c) = [d0]" by simp
        have res: "resolves st c (JStr j)" using known one by (simp add: resolves_def)
        then have res1: "resolves st1 c (JStr j)" using same_stores_resolves [OF s1] by simp
        have "mongo_match [(''#id'', JStr j)] d0" using find_singleton_match [OF one] .
        then have i: "dict_get (strip_mongo_ids d0) ''#id'' = Some (JStr j)"
          by (simp add: mongo_match_def dict_get_strip_mongo_ids)
        then have ne: "strip_mongo_ids d0 \<noteq> []" by (auto simp: dict_get_def)
        obtain st2 where a: "add_to_cache st1 now c (strip_mongo_ids d0) = (st2, Inr ())"
          and s2: "same_stores st1 st2" and co2: "cache_coherent st2"
          using add_to_cache_string [OF co1 i res1] by blast
        have s: "same_stores st st2" using s1 s2 by (rule same_stores_trans)
        from g False f known one a
        have "get_document st now c (JStr j) 0 = (st2, Inr (strip_mongo_ids d0))"
          by (auto simp: get_document_def Let_def)
        then show ?thesis using s co2 res ne
          by (intro exI [of _ st2] exI [of _ "Inr (strip_mongo_ids d0)"]) simp
      qed
    qed
  qed
qed

lemma check_link_string:
  assumes u: "unique_ids st" and co: "cache_coherent st"
  shows "\<exists>st'. check_link st now pc pid tc (JStr j) errors =
                 (st', Inr (errors @ broken_links st pc pid [(tc, JStr j)]))
           \<and> same_stores st st' \<and> cache_coherent st'"
proof -
  obtain st' r where g: "get_document st now tc (JStr j) 0 = (st', r)"
    and s: "same_stores st st'" and co': "cache_coherent st'"
    and r: "if resolves st tc (JStr j) then \<exists>d. r = Inr d \<and> d \<noteq> []
            else \<exists>e. r = Inl e \<and> is_LookupError e"
    using get_document_string [OF u co] by blast
  show ?thesis
  proof (cases "resolves st tc (JStr j)")
    case True
    with r obtain d where "r = Inr d" "d \<noteq> []" by auto
    with g True have "check_link st now pc pid tc (JStr j) errors = (st', Inr errors)"
      by (simp add: check_link_def)
    then show ?thesis using True s co'
      by (intro exI [of _ st']) (simp add: broken_links_def)
  next
    case False
    with r obtain e where "r = Inl e" "is_LookupError e" by auto
    with g have "check_link st now pc pid tc (JStr j) errors =
        (st', Inr (errors @ [Broken_link pc pid tc (JStr j)]))"
      by (simp add: check_link_def)
    then show ?thesis using False s co'
      by (intro exI [of _ st']) (simp add: broken_links_def)
  qed
qed

lemma broken_links_append:
  "broken_links st c i (xs @ ys) = broken_links st c i xs @ broken_links st c i ys"
  by (simp add: broken_links_def)

lemma scan_result_nil: "cache_coherent st \<Longrightarrow> scan_result st c i errors [] (st, Inr errors)"
  by (simp add: scan_result_def broken_links_def same_stores_refl)

lemma scan_result_seq:
  assumes first: "scan_result st c i errors ls1 r1"
      and u: "unique_ids st"
      and rest: "\<And>st1 errors1. r1 = (st1, Inr errors1) \<Longrightarrow> unique_ids st1 \<Longrightarrow> cache_coherent st1
                   \<Longrightarrow> scan_result st1 c i errors1 ls2 (k st1 errors1)"
  shows "scan_result st c i errors (ls1 @ ls2)
           (case r1 of (st1, Inl e) \<Rightarrow> (st1, Inl e) | (st1, Inr errors1) \<Rightarrow> k st1 errors1)"
proof -
  from first obtain st1 where r1: "r1 = (st1, Inr (errors @ broken_links st c i ls1))"
    and s1: "same_stores st st1" and co1: "cache_coherent st1"
    unfolding scan_result_def by blast
  have u1: "unique_ids st1" using u same_stores_unique_ids [OF s1] by simp
  from rest [OF r1 u1 co1] obtain st2 where
    k: "k st1 (errors @ broken_links st c i ls1) =
          (st2, Inr ((errors @ broken_links st c i ls1) @ broken_links st1 c i ls2))"
    and s2: "same_stores st1 st2" and co2: "cache_coherent st2"
    unfolding scan_result_def by blast
  have "same_stores st st2" using s1 s2 by (rule same_stores_trans)
  moreover have "broken_links st1 = broken_links st" using s1 by (rule same_stores_broken_links)
  ultimately show ?thesis
    unfolding scan_result_def using r1 k co2 by (simp add: broken_links_append)
qed

lemma check_link_scan:
  "unique_ids st \<Longrightarrow> cache_coherent st \<Longrightarrow>
   scan_result st c i errors [(t, JStr j)] (check_link st now c i t (JStr j) errors)"
  unfolding scan_result_def by (rule check_link_string)

lemma check_links_scan:
  "unique_ids st \<Longrightarrow> cache_coherent st \<Longrightarrow> list_all is_JStr vals \<Longrightarrow>
   scan_result st c i errors (map (\<lambda>val. (t, val)) vals) (check_links st now c i t vals errors)"
proof (induction vals arbitrary: st errors)
  case Nil
  then show ?case by (simp add: scan_result_nil)
next
  case (Cons val vals)
  then obtain j where val: "val = JStr j" by (cases val) auto
  have "scan_result st c i errors ([(t, JStr j)] @ map (\<lambda>val. (t, val)) vals)
          (case check_link st now c i t (JStr j) errors of
             (st1, Inl e) \<Rightarrow> (st1, Inl e)
           | (st1, Inr errors1) \<Rightarrow> check_links st1 now c i t vals errors1)"
    using check_link_scan [OF Cons.prems(1,2)] Cons.prems(1)
  proof (rule scan_result_seq)
    fix st1 errors1
    assume "unique_ids st1" "cache_coherent st1"
    then show "scan_result st1 c i errors1 (map (\<lambda>val. (t, val)) vals)
                 (check_links st1 now c i t vals errors1)"
      using Cons.prems(3) by (intro Cons.IH) simp_all
  qed
  then show ?case by (simp add: val)
qed

lemma check_dict_scan:
  "links_ok d \<Longrightarrow> unique_ids st \<Longrightarrow> cache_coherent st \<Longrightarrow>
     scan_result st c i errors (links_of d) (check_dict st now c i d errors)"
  and check_sublist_scan:
  "links_ok_list vs \<Longrightarrow> unique_ids st \<Longrightarrow> cache_coherent st \<Longrightarrow>
     scan_result st c i errors (links_of_list vs) (check_sublist st now c i vs errors)"
proof (induction st now c i d errors and st now c i vs errors rule: check_dict_check_sublist.induct)
  case (1 st now c i errors)
  then show ?case by (simp add: scan_result_nil)
next
  case (2 st now c i key "value" items errors)
  let ?first = "if startswith key ''@''
         then (case value of
                 JStr s \<Rightarrow> check_link st now c i (drop 1 key) value errors
               | JList vals \<Rightarrow> check_links st now c i (drop 1 key) vals errors
               | _ \<Rightarrow> (st, Inl ValueError_wrong_type))
         else (case value of
                 JObj d \<Rightarrow> check_dict st now c i d errors
               | JList subvalues \<Rightarrow> check_sublist st now c i subvalues errors
               | _ \<Rightarrow> (st, Inr errors))"
  let ?ls1 = "if startswith key ''@''
      then (case value of JStr s \<Rightarrow> [(drop 1 key, value)]
            | JList vals \<Rightarrow> map (\<lambda>val. (drop 1 key, val)) vals | _ \<Rightarrow> [])
      else (case value of JObj d \<Rightarrow> links_of d | JList vs \<Rightarrow> links_of_list vs | _ \<Rightarrow> [])"
  note u = \<open>unique_ids st\<close> and co = \<open>cache_coherent st\<close>
  from \<open>links_ok ((key, value) # items)\<close>
  have ok_items: "links_ok items"
    and ok_head: "if startswith key ''@''
       then (case value of JStr s \<Rightarrow> True | JList vals \<Rightarrow> list_all is_JStr vals | _ \<Rightarrow> False)
       else (case value of JObj d \<Rightarrow> links_ok d | JList vs \<Rightarrow> links_ok_list vs | _ \<Rightarrow> True)"
    by simp_all
  have first: "scan_result st c i errors ?ls1 ?first"
  proof (cases "startswith key ''@''")
    case True
    with ok_head show ?thesis
      using check_link_scan [OF u co] check_links_scan [OF u co] scan_result_nil [OF co]
      by (cases "value") simp_all
  next
    case False
    with ok_head show ?thesis
      using "2.IH"(1) [OF False _ _ u co] "2.IH"(2) [OF False _ _ u co] scan_result_nil [OF co]
      by (cases "value") simp_all
  qed
  have "scan_result st c i errors (?ls1 @ links_of items)
          (case ?first of (st1, Inl e) \<Rightarrow> (st1, Inl e)
           | (st1, Inr errors1) \<Rightarrow> check_dict st1 now c i items errors1)"
    using first u
  proof (rule scan_result_seq)
    fix st1 errors1
    assume "?first = (st1, Inr errors1)" "unique_ids st1" "cache_coherent st1"
    then show "scan_result st1 c i errors1 (links_of items) (check_dict st1 now c i items errors1)"
      using ok_items by (intro "2.IH"(3) [of st1 "Inr errors1" errors1]) simp_all
  qed
  then show ?case by simp
next
  case (3 st now c i errors)
  then show ?case by (simp add: scan_result_nil)
next
  case (4 st now c i subvalue subvalues errors)
  let ?first = "case subvalue of JObj d \<Rightarrow> check_dict st now c i d errors | _ \<Rightarrow> (st, Inr errors)"
  let ?ls1 = "case subvalue of JObj d \<Rightarrow> links_of d | _ \<Rightarrow> []"
  note u = \<open>unique_ids st\<close> and co = \<open>cache_coherent st\<close>
  from \<open>links_ok_list (subvalue # subvalues)\<close>
  have ok_rest: "links_ok_list subvalues"
    and ok_head: "case subvalue of JObj d \<Rightarrow> links_ok d | _ \<Rightarrow> True"
    by simp_all
  have first: "scan_result st c i errors ?ls1 ?first"
    using ok_head "4.IH"(1) [OF _ _ u co] scan_result_nil [OF co]
    by (cases subvalue) simp_all
  have "scan_result st c i errors (?ls1 @ links_of_list subvalues)
          (case ?first of (st1, Inl e) \<Rightarrow> (st1, Inl e)
           | (st1, Inr errors1) \<Rightarrow> check_sublist st1 now c i subvalues errors1)"
    using first u
  proof (rule scan_result_seq)
    fix st1 errors1
    assume "?first = (st1, Inr errors1)" "unique_ids st1" "cache_coherent st1"
    then show "scan_result st1 c i errors1 (links_of_list subvalues)
                 (check_sublist st1 now c i subvalues errors1)"
      using ok_rest by (intro "4.IH"(2) [of st1 "Inr errors1" errors1]) simp_all
  qed
  then show ?case by simp
qed

section \<open>The scans write to the cache only\<close>










section \<open>Properties of the health check\<close>












section \<open>Reading a given version\<close>

text \<open>
  Claim C1, at a failing input. After \<open>sensor1\<close> was inserted and replaced once
  (\<open>mc2\<close>), the history database holds exactly one entry of version 2, yet
  \<open>get_document\<close> asked for version 2 one second later returns the snapshot of
  version 1: the cache is looked up before the version is considered, and the replace has
  left the old document there.
\<close>

theorem get_document_version_served_from_cache:
  "find [(''#id'', JStr ''sensor1''), (''#version'', JInt 2)] (db_history mc2 ''sensors'') = [ctd_v2]
   \<and> snd (get_document mc2 1 ''sensors'' (JStr ''sensor1'') 2) = Inr ctd_v1"
  by code_simp

section \<open>The health check\<close>




section \<open>Scanning a document for broken links\<close>

text \<open>
  Claim C3, as the code has it. A link field that holds neither a string nor a list makes
  \<open>__check_dict\<close> raise \<open>ValueError\<close>: the scan stops there, and the broken link
  \<open>stations:nowhere\<close> that follows is not reported.
\<close>

theorem check_dict_raises_on_link_type:
  "snd (check_dict mc1 0 ''sensors'' (JStr ''sensor1'')
          [(''@people'', JInt 5), (''@stations'', JStr ''nowhere'')] [])
   = Inl ValueError_wrong_type"
  by code_simp

text \<open>
  Claim C3, amended. For a document whose link fields hold strings or lists of strings,
  scanned in a store without duplicated identifiers and with a coherent cache, the scan
  does not raise: it returns the diagnostics it was given followed by exactly one
  diagnostic for each link of the document that does not resolve, in the order of the
  depth-first walk, and leaves both databases as they were. The text of a diagnostic is
  \<^verbatim>\<open>c:'i' broken link t:'j'\<close>, with the identifiers in single quotes.
\<close>

theorem check_dict_reports_every_broken_link:
  assumes "links_ok d" and "unique_ids st" and "cache_coherent st"
  shows "(\<exists>st'. check_dict st now c i d errors =
                  (st', Inr (errors @ broken_links st c i (links_of d)))
              \<and> db st' = db st \<and> db_history st' = db_history st)
       \<and> (\<forall>s t j. diag_text repr (Broken_link c (JStr s) t (JStr j)) =
              c @ '':'' @ [CHR 0x27] @ s @ [CHR 0x27] @ '' broken link '' @
              t @ '':'' @ [CHR 0x27] @ j @ [CHR 0x27])"
proof -
  from check_dict_scan [OF assms] obtain st' where
    r: "check_dict st now c i d errors = (st', Inr (errors @ broken_links st c i (links_of d)))"
    and s: "same_stores st st'"
    unfolding scan_result_def by blast
  from same_stores_fields(1,2) [OF s] r show ?thesis
    by (simp add: py_str_def)
qed

theorem check_dict_reports_every_broken_link_witness:
  "snd (check_dict mc1 0 ''sensors'' (JStr ''sensor1'') linked_doc []) =
     Inr [Broken_link ''sensors'' (JStr ''sensor1'') ''people'' (JStr ''bob''),
          Broken_link ''sensors'' (JStr ''sensor1'') ''people'' (JStr ''ann''),
          Broken_link ''sensors'' (JStr ''sensor1'') ''sensors'' (JStr ''sensor7'')]"
proof -
  have ok: "links_ok linked_doc" by code_simp
  have u: "unique_ids mc1" by code_simp
  have "cache mc1 = (\<lambda>c. None)"
    by (simp add: mc1_def mc0_def insert_document_def Let_def ctd_def get_identifiers_def
          get_documents_def find_def strip_mongo_ids_list_def py_in_def validate_document_def
          validate_schema_def jsv_accept_def envelope_schema_def sensors_schema_def dict_get_def
          split: prod.splits)
  then have co: "cache_coherent mc1" by (simp add: cache_coherent_def)
  have b: "broken_links mc1 ''sensors'' (JStr ''sensor1'') (links_of linked_doc) =
     [Broken_link ''sensors'' (JStr ''sensor1'') ''people'' (JStr ''bob''),
      Broken_link ''sensors'' (JStr ''sensor1'') ''people'' (JStr ''ann''),
      Broken_link ''sensors'' (JStr ''sensor1'') ''sensors'' (JStr ''sensor7'')]"
    by code_simp
  from check_dict_reports_every_broken_link [OF ok u co, of 0 "''sensors''" "JStr ''sensor1''" "[]"]
  obtain st' where "check_dict mc1 0 ''sensors'' (JStr ''sensor1'') linked_doc [] =
      (st', Inr ([] @ broken_links mc1 ''sensors'' (JStr ''sensor1'') (links_of linked_doc)))"
    by blast
  then show ?thesis by (simp add: b)
qed

section \<open>Validating a document\<close>

text \<open>
  Claim C4, as the code has it. \<open>jsonschema.validate\<close> raises one
  \<open>ValidationError\<close> for a schema, whatever the number of violations, and
  \<open>validate_schema\<close> appends one diagnostic for it: a document that lacks both the
  version and the author gets a single diagnostic of the envelope schema. The diagnostic
  is formatted with the identifier of the document, so a failing document without
  identifier raises \<open>KeyError\<close> and reports nothing.
\<close>

theorem validate_document_one_failure_per_schema:
  "dict_get id_only_sensor ''#version'' = None
   \<and> dict_get id_only_sensor ''#author'' = None
   \<and> validate_document jsv_required envelope_schema (schemas mc0) id_only_sensor ''sensors'' False =
       ([Error_line (Schema_failure (JStr ''sensor9'') (JStr ''mmm:metadata'')
                       ''a required property is missing'')],
        [Schema_failure (JStr ''sensor9'') (JStr ''mmm:metadata'') ''a required property is missing''],
        Inr False)
   \<and> validate_document jsv_required envelope_schema (schemas mc0) nameless_doc ''sensors'' False =
       ([], [], Inl (KeyError ''#id''))"
  by code_simp

text \<open>
  Claim C4, amended. For a document with an identifier and schemas that \<open>jsonschema\<close>
  can use, one call of \<open>validate_document\<close> collects in one list, and prints, one
  diagnostic for each of the two schemas that the document fails: the failure that
  \<open>jsonschema.validate\<close> reports for the envelope schema and the one it reports for
  the collection schema, the second also when the first failed. A collection without
  schema adds the warning line and no error: a document that passes the envelope schema
  is then accepted.
\<close>

theorem validate_document_reports_all:
  assumes ident: "dict_get d ''#id'' = Some i"
      and m: "dict_get mmm_metadata ''$id'' \<noteq> None"
      and s: "\<forall>s. mmm_schemas c = Some s \<longrightarrow> dict_get s ''$id'' \<noteq> None"
      and jm: "jsv d mmm_metadata \<noteq> JsvSchemaError"
      and js: "\<forall>s. mmm_schemas c = Some s \<longrightarrow> jsv d s \<noteq> JsvSchemaError"
  shows "validate_document jsv mmm_metadata mmm_schemas d c exception =
           (let errors = failures jsv i d mmm_metadata @
                   (case mmm_schemas c of None \<Rightarrow> [] | Some s \<Rightarrow> failures jsv i d s);
                warnings = (case mmm_schemas c of None \<Rightarrow> [Warning_no_schema c] | Some s \<Rightarrow> [])
            in (warnings @ map Error_line errors, errors,
                if errors = [] then Inr True
                else if exception then Inl ValueError_invalid else Inr False))
       \<and> (mmm_schemas c = None \<and> jsv d mmm_metadata = JsvOk \<longrightarrow>
            validate_document jsv mmm_metadata mmm_schemas d c exception
              = ([Warning_no_schema c], [], Inr True))"
proof -
  have e1: "validate_schema jsv d mmm_metadata [] False = Inr (failures jsv i d mmm_metadata)"
    using validate_schema_failures [where jsv = jsv and d = d and schema = mmm_metadata, OF ident m jm]
    by simp
  have eq: "validate_document jsv mmm_metadata mmm_schemas d c exception =
           (let errors = failures jsv i d mmm_metadata @
                   (case mmm_schemas c of None \<Rightarrow> [] | Some s \<Rightarrow> failures jsv i d s);
                warnings = (case mmm_schemas c of None \<Rightarrow> [Warning_no_schema c] | Some s \<Rightarrow> [])
            in (warnings @ map Error_line errors, errors,
                if errors = [] then Inr True
                else if exception then Inl ValueError_invalid else Inr False))"
  proof (cases "mmm_schemas c")
    case None
    then show ?thesis by (simp add: validate_document_def e1 Let_def)
  next
    case (Some schema)
    with s js have "dict_get schema ''$id'' \<noteq> None" "jsv d schema \<noteq> JsvSchemaError" by simp_all
    then have "validate_schema jsv d schema (failures jsv i d mmm_metadata) False
        = Inr (failures jsv i d mmm_metadata @ failures jsv i d schema)"
      using validate_schema_failures [where jsv = jsv and d = d and schema = schema, OF ident]
      by simp
    with Some show ?thesis by (simp add: validate_document_def e1 Let_def)
  qed
  have "mmm_schemas c = None \<and> jsv d mmm_metadata = JsvOk \<longrightarrow>
            validate_document jsv mmm_metadata mmm_schemas d c exception
              = ([Warning_no_schema c], [], Inr True)"
    unfolding eq by (simp add: failures_def)
  with eq show ?thesis by simp
qed

theorem validate_document_reports_all_witness:
  "validate_document jsv_required envelope_schema (schemas mc0) bare_sensor ''sensors'' False =
     ([Error_line (Schema_failure (JStr ''sensor9'') (JStr ''mmm:metadata'')
                     ''a required property is missing''),
       Error_line (Schema_failure (JStr ''sensor9'') (JStr ''mmm:sensors'')
                     ''a required property is missing'')],
      [Schema_failure (JStr ''sensor9'') (JStr ''mmm:metadata'') ''a required property is missing'',
       Schema_failure (JStr ''sensor9'') (JStr ''mmm:sensors'') ''a required property is missing''],
      Inr False)
   \<and> validate_document jsv_required envelope_schema (schemas mc0) ctd_v1 ''stations'' True =
     ([Warning_no_schema ''stations''], [], Inr True)"
proof -
  have j: "\<And>d s. jsv_required d s \<noteq> JsvSchemaError"
    by (simp add: jsv_required_def split: option.splits json.splits list.splits)
  have m: "dict_get envelope_schema ''$id'' \<noteq> None" by code_simp
  have sc: "schemas mc0 ''sensors'' = Some sensors_schema" "schemas mc0 ''stations'' = None"
    by code_simp+
  have "dict_get sensors_schema ''$id'' \<noteq> None" by code_simp
  with sc have s1: "\<forall>s. schemas mc0 ''sensors'' = Some s \<longrightarrow> dict_get s ''$id'' \<noteq> None"
    and s2: "\<forall>s. schemas mc0 ''stations'' = Some s \<longrightarrow> dict_get s ''$id'' \<noteq> None" by simp_all
  have i1: "dict_get bare_sensor ''#id'' = Some (JStr ''sensor9'')" by code_simp
  have i2: "dict_get ctd_v1 ''#id'' = Some (JStr ''sensor1'')" by code_simp
  have ok: "jsv_required ctd_v1 envelope_schema = JsvOk" by code_simp
  have f1: "failures jsv_required (JStr ''sensor9'') bare_sensor envelope_schema
      = [Schema_failure (JStr ''sensor9'') (JStr ''mmm:metadata'') ''a required property is missing'']"
    by code_simp
  have f2: "failures jsv_required (JStr ''sensor9'') bare_sensor sensors_schema
      = [Schema_failure (JStr ''sensor9'') (JStr ''mmm:sensors'') ''a required property is missing'']"
    by code_simp
  have a: "validate_document jsv_required envelope_schema (schemas mc0) bare_sensor ''sensors'' False =
     ([Error_line (Schema_failure (JStr ''sensor9'') (JStr ''mmm:metadata'')
                     ''a required property is missing''),
       Error_line (Schema_failure (JStr ''sensor9'') (JStr ''mmm:sensors'')
                     ''a required property is missing'')],
      [Schema_failure (JStr ''sensor9'') (JStr ''mmm:metadata'') ''a required property is missing'',
       Schema_failure (JStr ''sensor9'') (JStr ''mmm:sensors'') ''a required property is missing''],
      Inr False)"
    using validate_document_reports_all [where jsv = jsv_required and d = bare_sensor
            and mmm_metadata = envelope_schema and mmm_schemas = "schemas mc0"
            and c = "''sensors''" and exception = False, OF i1 m s1 j] j
    by (simp add: sc f1 f2)
  have b: "validate_document jsv_required envelope_schema (schemas mc0) ctd_v1 ''stations'' True =
     ([Warning_no_schema ''stations''], [], Inr True)"
    using validate_document_reports_all [where jsv = jsv_required and d = ctd_v1
            and mmm_metadata = envelope_schema and mmm_schemas = "schemas mc0"
            and c = "''stations''" and exception = True, OF i2 m s2 j] j sc(2) ok
    by blast
  show ?thesis using a b by simp
qed

section \<open>Inserting with update\<close>

text \<open>
  Claim C5, at a failing input. \<open>sensor1\<close> exists in \<open>mc1\<close>. An insert with
  \<open>update\<close> set and author \<open>alice\<close> stores the default author \<open>admin\<close>,
  where \<open>replace_document\<close> with the same arguments stores \<open>alice\<close>; without
  \<open>update\<close> the insert raises \<open>NameError\<close>.
\<close>

theorem insert_document_update_drops_author:
  "map_sum id (\<lambda>d. dict_get d ''#author'')
     (snd (insert_document jsv_accept mc1 0 ''2024-01-02T00:00:00Z'' ''sensors'' ctd2
             ''alice'' False False True))
   = Inr (Some (JStr ''admin''))
   \<and> map_sum id (\<lambda>d. dict_get d ''#author'')
     (snd (replace_document jsv_accept mc1 0 ''2024-01-02T00:00:00Z'' ''sensors''
             (JStr ''sensor1'') ctd2 ''alice'' False))
   = Inr (Some (JStr ''alice''))
   \<and> snd (insert_document jsv_accept mc1 0 ''2024-01-02T00:00:00Z'' ''sensors'' ctd2
             ''alice'' False False False)
   = Inl NameError"
  by code_simp

section \<open>Replacing with unchanged content\<close>




section \<open>Inserting into an empty collection\<close>

text \<open>
  Claim C7, as the code has it. In the run of \<open>sensor1\<close>, the collection is empty
  after the delete (\<open>mc4\<close>) and the insert returns a document of version 1, but the
  read that follows is served from the cache, which still holds the deleted document of
  version 2 with two different timestamps.
\<close>

theorem insert_document_then_stale_read:
  "db mc4 ''sensors'' = []
   \<and> map_sum id (\<lambda>d. dict_get d ''#version'')
        (snd (insert_document jsv_accept mc4 401 ''2024-01-03T00:00:00Z'' ''sensors'' ctd
                [] False False False))
       = Inr (Some (JInt 1))
   \<and> map_sum id (\<lambda>d. (dict_get d ''#version'', dict_get d ''#creationDate'',
                       dict_get d ''#modificationDate''))
        (snd (get_document mc5 402 ''sensors'' (JStr ''sensor1'') 0))
       = Inr (Some (JInt 2), Some (JStr ''2024-01-01T00:00:00Z''),
              Some (JStr ''2024-01-02T00:00:00Z''))"
  by code_simp

text \<open>
  Claim C7, amended. An insert without \<open>force_meta\<close> into a known, empty collection,
  of a dictionary with a string identifier whose generated document passes validation (or
  with \<open>force\<close>), stores and returns the generated metadata followed by the caller's
  content: version 1, creation and modification timestamps equal, the author given or the
  default author. A read that follows returns that document when the cache holds no
  fresh entry for the identifier.
\<close>

theorem insert_document_fresh:
  assumes known: "c \<in> set (collection_names st)"
      and empty: "db st c = []"
      and ident: "dict_get document ''#id'' = Some (JStr i)"
      and keys: "distinct (map fst document)"
      and new: "new = fresh_document (JStr i) ts (if author = [] then default_author st else author)
                        (strip_metadata_fields document)"
      and valid: "snd (snd (validate_document jsv (metadata_schema st) (schemas st) new c (\<not> force)))
                  = Inr ok"
      and miss: "snd (get_from_cache st now' c (JStr i)) = Inr None"
  shows "insert_document jsv st now ts c document author force False update =
           (st\<lparr>db := (db st)(c := [new]), db_history := (db_history st)(c := db_history st c @ [new])\<rparr>,
            Inr new)
       \<and> snd (get_document (fst (insert_document jsv st now ts c document author force False update))
               now' c (JStr i) 0) = Inr (strip_mongo_ids new)
       \<and> dict_get (strip_mongo_ids new) ''#version'' = Some (JInt 1)
       \<and> dict_get (strip_mongo_ids new) ''#creationDate'' = Some (JStr ts)
       \<and> dict_get (strip_mongo_ids new) ''#modificationDate'' = Some (JStr ts)
       \<and> dict_get (strip_mongo_ids new) ''#author''
           = Some (JStr (if author = [] then default_author st else author))"
proof -
  let ?st' = "st\<lparr>db := (db st)(c := [new]), db_history := (db_history st)(c := db_history st c @ [new])\<rparr>"
  obtain out errors where v: "validate_document jsv (metadata_schema st) (schemas st) new c (\<not> force)
      = (out, errors, Inr ok)"
    using valid by (metis prod.collapse)
  have ins: "insert_document jsv st now ts c document author force False update = (?st', Inr new)"
    using known ident v
    by (simp add: insert_document_def get_identifiers_empty [OF known empty] py_in_def
         insert_new_document [OF keys] new [symmetric] insert_one_def empty)
  have nid: "dict_get new ''#id'' = Some (JStr i)"
    by (simp add: new fresh_document_def dict_get_def)
  have miss': "snd (get_from_cache ?st' now' c (JStr i)) = Inr None"
    using miss by (simp add: get_from_cache_outcome [of ?st' st])
  have one: "find [(''#id'', JStr i)] (db ?st' c) = [new]"
    by (simp add: find_def mongo_match_id nid)
  have got: "snd (get_document ?st' now' c (JStr i) 0) = Inr (strip_mongo_ids new)"
    using miss' _ one by (rule get_document_single) (simp add: known)
  have fields: "dict_get (strip_mongo_ids new) ''#version'' = Some (JInt 1)"
       "dict_get (strip_mongo_ids new) ''#creationDate'' = Some (JStr ts)"
       "dict_get (strip_mongo_ids new) ''#modificationDate'' = Some (JStr ts)"
       "dict_get (strip_mongo_ids new) ''#author''
           = Some (JStr (if author = [] then default_author st else author))"
    unfolding new by (simp_all add: dict_get_strip_mongo_ids) (simp_all add: fresh_document_def dict_get_def)
  show ?thesis using ins got fields by simp
qed

theorem insert_document_fresh_witness:
  "snd (insert_document jsv_required mc0 0 ''2024-01-01T00:00:00Z'' ''sensors'' ctd
          [] False False False) = Inr ctd_v1
   \<and> snd (get_document
            (fst (insert_document jsv_required mc0 0 ''2024-01-01T00:00:00Z'' ''sensors'' ctd
                    [] False False False)) 1 ''sensors'' (JStr ''sensor1'') 0) = Inr ctd_v1
   \<and> dict_get ctd_v1 ''#version'' = Some (JInt 1)
   \<and> dict_get ctd_v1 ''#creationDate'' = dict_get ctd_v1 ''#modificationDate''
   \<and> dict_get ctd_v1 ''#author'' = Some (JStr ''admin'')"
proof -
  have known: "''sensors'' \<in> set (collection_names mc0)" by code_simp
  have empty: "db mc0 ''sensors'' = []" by code_simp
  have ident: "dict_get ctd ''#id'' = Some (JStr ''sensor1'')" by code_simp
  have keys: "distinct (map fst ctd)" by code_simp
  have new: "ctd_v1 = fresh_document (JStr ''sensor1'') ''2024-01-01T00:00:00Z''
                (if ([]::string) = [] then default_author mc0 else [])
                (strip_metadata_fields ctd)" by code_simp
  have valid: "snd (snd (validate_document jsv_required (metadata_schema mc0) (schemas mc0)
                 ctd_v1 ''sensors'' (\<not> False))) = Inr True" by code_simp
  have miss: "snd (get_from_cache mc0 1 ''sensors'' (JStr ''sensor1'')) = Inr None" by code_simp
  have strip: "strip_mongo_ids ctd_v1 = ctd_v1" by code_simp
  have admin: "default_author mc0 = ''admin''" by code_simp
  note t = insert_document_fresh [OF known empty ident keys new valid miss, of 0 False]
  from t have a: "snd (insert_document jsv_required mc0 0 ''2024-01-01T00:00:00Z'' ''sensors'' ctd
          [] False False False) = Inr ctd_v1" by simp
  from t have b: "snd (get_document
            (fst (insert_document jsv_required mc0 0 ''2024-01-01T00:00:00Z'' ''sensors'' ctd
                    [] False False False)) 1 ''sensors'' (JStr ''sensor1'') 0)
          = Inr (strip_mongo_ids ctd_v1)" by (rule conjunct1 [OF conjunct2])
  from t have c: "dict_get (strip_mongo_ids ctd_v1) ''#version'' = Some (JInt 1)"
    "dict_get (strip_mongo_ids ctd_v1) ''#creationDate'' = Some (JStr ''2024-01-01T00:00:00Z'')"
    "dict_get (strip_mongo_ids ctd_v1) ''#modificationDate'' = Some (JStr ''2024-01-01T00:00:00Z'')"
    "dict_get (strip_mongo_ids ctd_v1) ''#author'' = Some (JStr (default_author mc0))"
    by simp_all
  show ?thesis using a b c by (simp add: strip admin)
qed

section \<open>The history of a document\<close>

text \<open>
  Claim C8, as the code has it. \<open>get_document_history\<close> applies no sort: in the run
  \<open>mc5\<close> (insert, replace, delete, insert again) the versions come back as 1, 2, 1.
\<close>

theorem get_document_history_not_ascending:
  "map_sum id (map (\<lambda>d. dict_get d ''#version''))
     (get_document_history mc5 ''sensors'' (JStr ''sensor1''))
   = Inr [Some (JInt 1), Some (JInt 2), Some (JInt 1)]"
  by code_simp

text \<open>
  Claim C8, amended. \<open>get_document_history\<close> fails with the not-found
  \<open>LookupError\<close> when no entry of the history collection holds the identifier, and
  otherwise returns all the entries that hold it, in the order in which they were written
  to the history database.
\<close>

theorem get_document_history_store_order:
  "get_document_history st c i =
     (if (\<forall>d \<in> set (db_history st c). dict_get d ''#id'' \<noteq> Some i)
      then Inl LookupError_not_found
      else Inr (map strip_mongo_ids (filter (\<lambda>d. dict_get d ''#id'' = Some i) (db_history st c))))"
  by (simp add: get_document_history_def find_def mongo_match_id filter_empty_conv)

theorem get_document_history_store_order_witness:
  "get_document_history mc2 ''sensors'' (JStr ''sensor1'') = Inr [ctd_v1, ctd_v2]
   \<and> get_document_history mc2 ''sensors'' (JStr ''sensor2'') = Inl LookupError_not_found"
proof -
  have h: "db_history mc2 ''sensors'' = [ctd_v1, ctd_v2]" by code_simp
  have a: "map strip_mongo_ids (filter (\<lambda>d. dict_get d ''#id'' = Some (JStr ''sensor1'')) [ctd_v1, ctd_v2])
           = [ctd_v1, ctd_v2]" by code_simp
  have b: "\<not> (\<forall>d \<in> set [ctd_v1, ctd_v2]. dict_get d ''#id'' \<noteq> Some (JStr ''sensor1''))" by code_simp
  have c: "\<forall>d \<in> set [ctd_v1, ctd_v2]. dict_get d ''#id'' \<noteq> Some (JStr ''sensor2'')" by code_simp
  show ?thesis
    using get_document_history_store_order [of mc2 "''sensors''" "JStr ''sensor1''"]
          get_document_history_store_order [of mc2 "''sensors''" "JStr ''sensor2''"] h a b c
    by simp
qed

section \<open>Deleting a document\<close>

text \<open>
  Claim C9. \<open>delete_document\<close> has no failing outcome. It leaves the history database,
  the cache and the other collections as they are; when the identifier is absent from the
  collection nothing changes at all; and when the identifier is held by at most one
  document of the collection, that document is the only one removed and a second delete
  changes nothing more.
\<close>

theorem delete_document_current_only:
  "db_history (delete_document st c i) = db_history st
   \<and> cache (delete_document st c i) = cache st
   \<and> (\<forall>c'. c' \<noteq> c \<longrightarrow> db (delete_document st c i) c' = db st c')
   \<and> (find [(''#id'', i)] (db st c) = [] \<longrightarrow> delete_document st c i = st)
   \<and> (length (find [(''#id'', i)] (db st c)) \<le> 1 \<longrightarrow>
        db (delete_document st c i) c = filter (\<lambda>d. dict_get d ''#id'' \<noteq> Some i) (db st c)
        \<and> find [(''#id'', i)] (db (delete_document st c i) c) = []
        \<and> delete_document (delete_document st c i) c i = delete_document st c i)"
proof -
  let ?f = "[(''#id'', i)]"
  have m: "\<And>d. mongo_match ?f d = (dict_get d ''#id'' = Some i)"
    by (simp add: mongo_match_def)
  have a: "find ?f (db st c) = [] \<longrightarrow> delete_document st c i = st"
    by (simp add: delete_document_def delete_one_absent)
  have b: "length (find ?f (db st c)) \<le> 1 \<longrightarrow>
        db (delete_document st c i) c = filter (\<lambda>d. dict_get d ''#id'' \<noteq> Some i) (db st c)"
    using delete_one_unique [of ?f "db st c"] by (simp add: delete_document_def m)
  have c: "length (find ?f (db st c)) \<le> 1 \<longrightarrow> find ?f (db (delete_document st c i) c) = []"
    using delete_one_unique [of ?f "db st c"] find_filter_not [of ?f "db st c"]
    by (simp add: delete_document_def)
  have d: "length (find ?f (db st c)) \<le> 1 \<longrightarrow>
        delete_document (delete_document st c i) c i = delete_document st c i"
  proof
    assume "length (find ?f (db st c)) \<le> 1"
    with c have "find ?f (db (delete_document st c i) c) = []" by simp
    then show "delete_document (delete_document st c i) c i = delete_document st c i"
      by (simp add: delete_document_def delete_one_absent)
  qed
  show ?thesis using a b c d by (simp add: delete_document_def)
qed

theorem delete_document_current_only_witness:
  "db_history (delete_document mc2 ''sensors'' (JStr ''sensor1'')) ''sensors'' = [ctd_v1, ctd_v2]
   \<and> db mc2 ''sensors'' = [ctd_v2]
   \<and> db (delete_document mc2 ''sensors'' (JStr ''sensor1'')) ''sensors'' = []
   \<and> delete_document (delete_document mc2 ''sensors'' (JStr ''sensor1'')) ''sensors'' (JStr ''sensor1'')
       = delete_document mc2 ''sensors'' (JStr ''sensor1'')"
proof -
  have d: "db mc2 ''sensors'' = [ctd_v2]" by code_simp
  have h: "db_history mc2 ''sensors'' = [ctd_v1, ctd_v2]" by code_simp
  have u: "length (find [(''#id'', JStr ''sensor1'')] (db mc2 ''sensors'')) \<le> 1"
    unfolding d by code_simp
  have f: "filter (\<lambda>d. dict_get d ''#id'' \<noteq> Some (JStr ''sensor1'')) [ctd_v2] = []"
    by code_simp
  show ?thesis
    using delete_document_current_only [of mc2 "''sensors''" "JStr ''sensor1''"] u d h f
    by simp
qed

section \<open>What a read leaves in the cache\<close>

text \<open>
  Claim C10. The cache is a dictionary per collection keyed by the identifier alone. When
  the lookup of \<open>(c, i)\<close> misses at clock reading \<open>t0\<close> and
  \<open>get_document\<close> succeeds with document \<open>d\<close>, whether it read the history
  database for a version \<open>v\<close> or the current database, then \<open>d\<close> is stored under
  \<open>(c, i)\<close> with time \<open>t0\<close>, and a read without version at any clock reading
  \<open>t1\<close> with \<open>t1 - t0\<close> within the timeout returns \<open>d\<close> again, without
  looking at the current database.
\<close>

theorem get_document_caches_without_version:
  assumes miss: "snd (get_from_cache st t0 c (JStr i)) = Inr None"
      and ok: "get_document st t0 c (JStr i) v = (st', Inr d)"
      and ttl: "t1 - t0 \<le> cache_timeout_s"
  shows "(\<exists>m. cache st' c = Some m \<and> m (JStr i) = Some (t0, d))
       \<and> (v \<noteq> 0 \<longrightarrow> (\<exists>d0. find [(''#id'', JStr i), (''#version'', JInt v)] (db_history st c) = [d0]
                          \<and> d = strip_mongo_ids d0))
       \<and> (v = 0 \<longrightarrow> (\<exists>d0. find [(''#id'', JStr i)] (db st c) = [d0] \<and> d = strip_mongo_ids d0))
       \<and> get_document st' t1 c (JStr i) 0 = (st', Inr d)"
proof -
  obtain st1 where g: "get_from_cache st t0 c (JStr i) = (st1, Inr None)"
    using miss by (cases "get_from_cache st t0 c (JStr i)") auto
  have s1: "st1 = st\<lparr>cache := cache st1\<rparr>" using get_from_cache_stores [OF g] .
  then have dbs: "db st1 = db st" "db_history st1 = db_history st"
    by (metis mc.select_convs(3) mc.surjective mc.update_convs(5),
        metis mc.select_convs(4) mc.surjective mc.update_convs(5))
  let ?flt = "[(''#id'', JStr i)] @ (if v \<noteq> 0 then [(''#version'', JInt v)] else [])"
  let ?docs = "find ?flt ((if v \<noteq> 0 then db_history st1 else db st1) c)"
  from ok g have len: "length ?docs = 1"
    by (auto simp: get_document_def Let_def split: if_splits) (cases ?docs; auto)+
  then obtain d0 where docs: "?docs = [d0]"
    by (cases ?docs) auto
  from ok g docs have a: "add_to_cache st1 t0 c (strip_mongo_ids d0) = (st', Inr ())"
    and d: "d = strip_mongo_ids d0"
    by (auto simp: get_document_def Let_def split: if_splits prod.splits sum.splits)
  have "mongo_match ?flt d0" using find_singleton_match [OF docs] .
  then have "dict_get d0 ''#id'' = Some (JStr i)"
    by (simp add: mongo_match_def)
  then have did: "dict_get d ''#id'' = Some (JStr i)"
    by (simp add: d dict_get_strip_mongo_ids)
  then have ne: "d \<noteq> []" by (auto simp: dict_get_def)
  from a did d have c': "cache st' c =
      Some ((case cache st1 c of None \<Rightarrow> Map.empty | Some m \<Rightarrow> m)(JStr i \<mapsto> (t0, d)))"
    by (auto simp: add_to_cache_def Let_def split: if_splits)
  have hit: "get_from_cache st' t1 c (JStr i) = (st', Inr (Some d))"
    using ttl by (simp add: get_from_cache_def c')
  have again: "get_document st' t1 c (JStr i) 0 = (st', Inr d)"
    using ne by (simp add: get_document_def hit)
  from docs dbs d have hist: "v \<noteq> 0 \<longrightarrow> (\<exists>d0. find [(''#id'', JStr i), (''#version'', JInt v)] (db_history st c) = [d0]
                          \<and> d = strip_mongo_ids d0)"
    by auto
  from docs dbs d have cur: "v = 0 \<longrightarrow> (\<exists>d0. find [(''#id'', JStr i)] (db st c) = [d0] \<and> d = strip_mongo_ids d0)"
    by auto
  show ?thesis using c' hist cur again by simp
qed


theorem get_document_caches_without_version_witness:
  "snd (get_from_cache mc2 400 ''sensors'' (JStr ''sensor1'')) = Inr None
   \<and> snd (get_document mc2 400 ''sensors'' (JStr ''sensor1'') 1) = Inr ctd_v1
   \<and> db mc2 ''sensors'' = [ctd_v2]
   \<and> get_document (fst (get_document mc2 400 ''sensors'' (JStr ''sensor1'') 1)) 500 ''sensors''
         (JStr ''sensor1'') 0
       = (fst (get_document mc2 400 ''sensors'' (JStr ''sensor1'') 1), Inr ctd_v1)"
proof -
  let ?st = "fst (get_document mc2 400 ''sensors'' (JStr ''sensor1'') 1)"
  have miss: "snd (get_from_cache mc2 400 ''sensors'' (JStr ''sensor1'')) = Inr None"
    by code_simp
  have r: "snd (get_document mc2 400 ''sensors'' (JStr ''sensor1'') 1) = Inr ctd_v1"
    by code_simp
  then have ok: "get_document mc2 400 ''sensors'' (JStr ''sensor1'') 1 = (?st, Inr ctd_v1)"
    by (metis prod.collapse)
  have ttl: "(500::real) - 400 \<le> cache_timeout_s" by (simp add: cache_timeout_s_def)
  have cur: "db mc2 ''sensors'' = [ctd_v2]" by code_simp
  show ?thesis
    using get_document_caches_without_version [OF miss ok ttl] miss r cur by simp
qed

end
